theory Spec2Isabelle
  imports Complex_Main
begin

section \<open>Qt value types used by the canvas and the placement code\<close>

text \<open>
  \<open>QSize\<close>, \<open>QPoint\<close> and \<open>QRect\<close> hold integer coordinates; a \<open>QColor\<close> is either a
  channel quadruple or the invalid colour that Qt hands out for a failed read. A \<open>QImage\<close>
  has non-negative dimensions and a pixel store; only its size and its pixels matter to the
  code below. Coordinates are Python integers, without the bounds of a C \<open>int\<close>.
\<close>

datatype qsize = QSize (width: int) (height: int)

datatype qpoint = QPoint (point_x: int) (point_y: int)

datatype qrect = QRect (rect_x: int) (rect_y: int) (rect_width: int) (rect_height: int)

datatype qcolor = QColor (red: nat) (green: nat) (blue: nat) (alpha: nat) | QColorInvalid

type_synonym rgba = "nat \<times> nat \<times> nat \<times> nat"

datatype qimage = QImage (img_width: nat) (img_height: nat) (img_pixel: "int \<Rightarrow> int \<Rightarrow> rgba")

definition image_size :: "qimage \<Rightarrow> qsize" where
  "image_size img = QSize (int (img_width img)) (int (img_height img))"

definition image_rect :: "qimage \<Rightarrow> qrect" where
  "image_rect img = QRect 0 0 (int (img_width img)) (int (img_height img))"

text \<open>
  \<open>QRect.contains(point)\<close> as Qt computes it: the right and bottom edges are
  \<open>x + width - 1\<close> and \<open>y + height - 1\<close>, and an edge pair that is out of order by more than
  one is swapped before the comparison.
\<close>

definition contains :: "qrect \<Rightarrow> qpoint \<Rightarrow> bool" where
  "contains r p =
     (let x1 = rect_x r; x2 = rect_x r + rect_width r - 1;
          y1 = rect_y r; y2 = rect_y r + rect_height r - 1;
          l = (if x2 < x1 - 1 then x2 else x1);
          rr = (if x2 < x1 - 1 then x1 else x2);
          t = (if y2 < y1 - 1 then y2 else y1);
          b = (if y2 < y1 - 1 then y1 else y2)
      in if point_x p < l \<or> point_x p > rr then False
         else if point_y p < t \<or> point_y p > b then False
         else True)"

text \<open>
  \<open>QImage.pixelColor(point)\<close>: Qt checks the coordinates itself and answers a read outside
  the image with the invalid colour.
\<close>

definition pixelColor :: "qimage \<Rightarrow> qpoint \<Rightarrow> qcolor" where
  "pixelColor img p =
     (if point_x p < 0 \<or> point_x p \<ge> int (img_width img)
         \<or> point_y p < 0 \<or> point_y p \<ge> int (img_height img)
      then QColorInvalid
      else (case img_pixel img (point_x p) (point_y p) of
              (r, g, b, a) \<Rightarrow> QColor r g b a))"

section \<open>Python runtime errors and dynamically typed values\<close>

datatype py_error = AttributeError | IndexError | TypeError | ZeroDivisionError

definition bind :: "py_error + 'a \<Rightarrow> ('a \<Rightarrow> py_error + 'b) \<Rightarrow> py_error + 'b" where
  "bind m f = (case m of Inl e \<Rightarrow> Inl e | Inr v \<Rightarrow> f v)"

text \<open>\<open>xs[-1]\<close> and \<open>xs.pop()\<close>: both raise \<open>IndexError\<close> on the empty list.\<close>

definition index_last :: "'a list \<Rightarrow> py_error + 'a" where
  "index_last xs = (if xs = [] then Inl IndexError else Inr (last xs))"

definition pop :: "'a list \<Rightarrow> py_error + ('a \<times> 'a list)" where
  "pop xs = (if xs = [] then Inl IndexError else Inr (last xs, butlast xs))"

text \<open>
  \<open>xs[-n:]\<close> for a positive \<open>n\<close>: the last \<open>n\<close> elements, or all of them when the list is
  shorter.
\<close>

definition slice_last :: "nat \<Rightarrow> 'a list \<Rightarrow> 'a list" where
  "slice_last n xs = drop (length xs - n) xs"

section \<open>The canvas and its undo/redo history (\<open>pydemo/util/canvas.py\<close>)\<close>

text \<open>
  \<open>Canvas.UndoState\<close> stores an image and the clock reading taken when it was created. It
  has these two attributes and no methods.
\<close>

datatype undo_state = UndoState (image: qimage) (timestamp: rat)

text \<open>
  A local variable of \<open>undo\<close> and \<open>redo\<close> holds either an image or an undo state; which
  methods exist on it depends on which one it is.
\<close>

datatype py_value = ImageObj qimage | UndoStateObj undo_state

fun call_size :: "py_value \<Rightarrow> py_error + qsize" where
  "call_size (ImageObj img) = Inr (image_size img)"
| "call_size (UndoStateObj s) = Inl AttributeError"

fun call_scaled :: "(qsize \<Rightarrow> qimage \<Rightarrow> qimage) \<Rightarrow> py_value \<Rightarrow> qsize \<Rightarrow> py_error + py_value" where
  "call_scaled scaled (ImageObj img) sz = Inr (ImageObj (scaled sz img))"
| "call_scaled scaled (UndoStateObj s) sz = Inl AttributeError"

text \<open>
  The canvas state: the image that \<open>get_qimage\<close> returns, and the two stacks, oldest entry
  first. \<open>get_qimage\<close>, \<open>set_image\<close> and \<open>size\<close> are left to the implementing class; they are
  modelled as reading and replacing the content slot, as \<open>MypaintCanvas\<close> does through its
  brush surface. \<open>set_image\<close> rejects anything that is not image data.
\<close>

record canvas =
  content :: qimage
  undo_stack :: "undo_state list"
  redo_stack :: "undo_state list"

definition MAX_UNDO :: nat where
  "MAX_UNDO = 30"

definition init_canvas :: "qimage \<Rightarrow> canvas" where
  "init_canvas img = \<lparr>content = img, undo_stack = [], redo_stack = []\<rparr>"

definition get_qimage :: "canvas \<Rightarrow> qimage" where
  "get_qimage c = content c"

definition canvas_size :: "canvas \<Rightarrow> qsize" where
  "canvas_size c = image_size (content c)"

fun set_image :: "py_value \<Rightarrow> canvas \<Rightarrow> py_error + canvas" where
  "set_image (ImageObj img) c = Inr (c\<lparr>content := img\<rparr>)"
| "set_image (UndoStateObj s) c = Inl TypeError"

text \<open>
  \<open>_save_undo_state\<close>: \<open>now\<close> is the clock reading that the new \<open>UndoState\<close> takes.
\<close>

definition save_undo_state :: "rat \<Rightarrow> bool \<Rightarrow> canvas \<Rightarrow> canvas" where
  "save_undo_state now clear_redo_stack c =
     (let img = get_qimage c;
          c1 = c\<lparr>undo_stack := undo_stack c @ [UndoState img now]\<rparr>;
          c2 = (if length (undo_stack c1) > MAX_UNDO
                then c1\<lparr>undo_stack := slice_last MAX_UNDO (undo_stack c1)\<rparr>
                else c1)
      in if clear_redo_stack then c2\<lparr>redo_stack := []\<rparr> else c2)"

text \<open>
  \<open>undo\<close>: \<open>scaled\<close> stands for Qt's \<open>QImage.scaled\<close>, \<open>now\<close> for the clock reading of the
  redo entry.
\<close>

definition undo :: "(qsize \<Rightarrow> qimage \<Rightarrow> qimage) \<Rightarrow> rat \<Rightarrow> canvas \<Rightarrow> py_error + canvas" where
  "undo scaled now c =
     (if length (undo_stack c) = 0 then Inr c
      else
        let img = get_qimage c;
            c1 = c\<lparr>redo_stack := redo_stack c @ [UndoState img now]\<rparr>
        in bind (pop (undo_stack c1)) (\<lambda>(top, rest).
             let c2 = c1\<lparr>undo_stack := rest\<rparr>;
                 new_image = ImageObj (image top)
             in bind (call_size new_image) (\<lambda>sz.
                  if sz \<noteq> canvas_size c2
                  then bind (call_scaled scaled new_image (canvas_size c2))
                         (\<lambda>new_image'. set_image new_image' c2)
                  else set_image new_image c2)))"

text \<open>
  \<open>redo\<close>: the value popped off the redo stack is the \<open>UndoState\<close> itself; the source does
  not take its \<open>image\<close> attribute before calling \<open>size()\<close> on it.
\<close>

definition redo :: "(qsize \<Rightarrow> qimage \<Rightarrow> qimage) \<Rightarrow> rat \<Rightarrow> canvas \<Rightarrow> py_error + canvas" where
  "redo scaled now c =
     (if length (redo_stack c) = 0 then Inr c
      else
        let c1 = save_undo_state now False c
        in bind (pop (redo_stack c1)) (\<lambda>(top, rest).
             let c2 = c1\<lparr>redo_stack := rest\<rparr>;
                 img = UndoStateObj top
             in bind (call_size img) (\<lambda>sz.
                  if sz \<noteq> canvas_size c2
                  then bind (call_scaled scaled img (canvas_size c2))
                         (\<lambda>img'. set_image img' c2)
                  else set_image img c2)))"

definition undo_count :: "canvas \<Rightarrow> nat" where
  "undo_count c = length (undo_stack c)"

text \<open>\<open>redo_count\<close> reads the undo stack, as the source does.\<close>

definition redo_count :: "canvas \<Rightarrow> nat" where
  "redo_count c = length (undo_stack c)"

definition last_undo_timestamp :: "canvas \<Rightarrow> py_error + rat option" where
  "last_undo_timestamp c =
     (if undo_count c = 0 then Inr None
      else bind (index_last (undo_stack c)) (\<lambda>s. Inr (Some (timestamp s))))"

definition last_redo_timestamp :: "canvas \<Rightarrow> py_error + rat option" where
  "last_redo_timestamp c =
     (if redo_count c = 0 then Inr None
      else bind (index_last (redo_stack c)) (\<lambda>s. Inr (Some (timestamp s))))"

definition clear_undo_history :: "canvas \<Rightarrow> canvas" where
  "clear_undo_history c = c\<lparr>undo_stack := [], redo_stack := []\<rparr>"

text \<open>
  \<open>start_stroke\<close>, \<open>fill\<close> and \<open>clear\<close> of \<open>Canvas\<close>: each saves an undo state with the
  default \<open>clear_redo_stack=True\<close> and leaves the drawing to the implementing class.
\<close>

definition start_stroke :: "rat \<Rightarrow> canvas \<Rightarrow> canvas" where
  "start_stroke now c = save_undo_state now True c"

definition fill :: "qcolor \<Rightarrow> rat \<Rightarrow> canvas \<Rightarrow> canvas" where
  "fill unused_color now c = save_undo_state now True c"

definition clear :: "rat \<Rightarrow> canvas \<Rightarrow> canvas" where
  "clear now c = save_undo_state now True c"

definition get_color_at_point :: "canvas \<Rightarrow> qpoint \<Rightarrow> qcolor" where
  "get_color_at_point c p =
     (if contains (image_rect (get_qimage c)) p
      then pixelColor (get_qimage c) p
      else QColor 0 0 0 0)"

text \<open>
  A run of saves. Each element gives the content the canvas holds when the save is made
  (whatever the edits since the previous save left there), the clock reading, and the
  \<open>clear_redo_stack\<close> argument.
\<close>

fun save_all :: "(qimage \<times> rat \<times> bool) list \<Rightarrow> canvas \<Rightarrow> canvas" where
  "save_all [] c = c"
| "save_all ((img, now, clr) # rest) c =
     save_all rest (save_undo_state now clr (c\<lparr>content := img\<rparr>))"

definition snapshot_of :: "qimage \<times> rat \<times> bool \<Rightarrow> undo_state" where
  "snapshot_of e = UndoState (fst e) (fst (snd e))"

section \<open>Scaled placement (\<open>pydemo/util/get_scaled_placement.py\<close>)\<close>

text \<open>
  Python's \<open>/\<close> on two integers is true division and gives a float; here the quotient is
  the exact rational, so rounding in the last binary digit is not part of the model. Division
  by zero raises. \<open>int(x)\<close> drops the fractional part, rounding toward zero.
\<close>

definition truediv :: "int \<Rightarrow> int \<Rightarrow> py_error + rat" where
  "truediv a b = (if b = 0 then Inl ZeroDivisionError else Inr (of_int a / of_int b))"

definition py_int :: "rat \<Rightarrow> int" where
  "py_int q = (if 0 \<le> q then \<lfloor>q\<rfloor> else \<lceil>q\<rceil>)"

definition get_scaled_placement :: "qrect \<Rightarrow> qsize \<Rightarrow> int \<Rightarrow> py_error + qrect" where
  "get_scaled_placement container_rect inner_size margin_width =
     (let container_size = QSize (rect_width container_rect - margin_width * 2)
                                 (rect_height container_rect - margin_width * 2)
      in bind (truediv (width container_size) (max (width inner_size) 1)) (\<lambda>scale_w.
         bind (truediv (height container_size) (max (height inner_size) 1)) (\<lambda>scale_h.
           let scale = min scale_w scale_h;
               x = of_int (rect_x container_rect + margin_width);
               y = of_int (rect_y container_rect + margin_width);
               x' = (if of_int (width inner_size) * scale < of_int (width container_size)
                     then x + (of_int (width container_size) - of_int (width inner_size) * scale) / 2
                     else x);
               y' = (if of_int (height inner_size) * scale < of_int (height container_size)
                     then y + (of_int (height container_size) - of_int (height inner_size) * scale) / 2
                     else y)
           in Inr (QRect (py_int x') (py_int y')
                         (py_int (of_int (width inner_size) * scale))
                         (py_int (of_int (height inner_size) * scale))))))"

text \<open>
  \<open>FixedAspectGraphicsView._border_size\<close> and the placement that \<open>resizeEvent\<close> stores in
  \<open>_content_rect\<close>, for a widget of the given size.
\<close>

definition border_size :: "qsize \<Rightarrow> int" where
  "border_size widget_size = (min (width widget_size) (height widget_size)) div 40 + 1"

definition resize_content_rect :: "qsize \<Rightarrow> qsize \<Rightarrow> py_error + qrect" where
  "resize_content_rect widget_size content_size =
     get_scaled_placement (QRect 0 0 (width widget_size) (height widget_size))
       content_size (border_size widget_size)"

subsection \<open>The placement as the specification words it\<close>

text \<open>
  \<open>scale = min((containerW - 2*margin) / max(contentW,1),
  (containerH - 2*margin) / max(contentH,1))\<close>; the placed rectangle has size
  \<open>(contentW*scale, contentH*scale)\<close> and is centred within the margin-reduced container.
  The result is the rectangle before any conversion to whole pixels:
  \<open>(x, y, width, height)\<close>.
\<close>

definition spec_scale :: "qrect \<Rightarrow> qsize \<Rightarrow> int \<Rightarrow> rat" where
  "spec_scale container inner margin =
     min (of_int (rect_width container - 2 * margin) / of_int (max (width inner) 1))
         (of_int (rect_height container - 2 * margin) / of_int (max (height inner) 1))"


text \<open>
  A rectangle lies within a container when it has non-negative width and height and none of
  its edges is outside the container's edges.
\<close>

definition rect_within :: "qrect \<Rightarrow> qrect \<Rightarrow> bool" where
  "rect_within r c \<longleftrightarrow>
     0 \<le> rect_width r \<and> 0 \<le> rect_height r \<and>
     rect_x c \<le> rect_x r \<and> rect_x r + rect_width r \<le> rect_x c + rect_width c \<and>
     rect_y c \<le> rect_y r \<and> rect_y r + rect_height r \<le> rect_y c + rect_height c"

section \<open>Facts about the Python list helpers\<close>

lemma slice_last_rev: "slice_last n xs = rev (take n (rev xs))"
  by (simp add: slice_last_def take_rev)

lemma slice_last_append_slice:
  "slice_last n (slice_last n xs @ ys) = slice_last n (xs @ ys)"
  by (simp add: slice_last_rev min_def)

lemma length_slice_last: "length (slice_last n xs) = min n (length xs)"
  by (simp add: slice_last_def)

lemma slice_last_all: "length xs \<le> n \<Longrightarrow> slice_last n xs = xs"
  by (simp add: slice_last_def)

section \<open>The undo stack under saves\<close>

lemma undo_stack_save:
  "undo_stack (save_undo_state now clr c) =
     slice_last MAX_UNDO (undo_stack c @ [UndoState (content c) now])"
  by (simp add: save_undo_state_def Let_def get_qimage_def slice_last_all)

lemma redo_stack_save:
  "redo_stack (save_undo_state now clr c) = (if clr then [] else redo_stack c)"
  by (simp add: save_undo_state_def Let_def)

lemma content_save: "content (save_undo_state now clr c) = content c"
  by (simp add: save_undo_state_def Let_def)

lemma undo_count_save_le: "undo_count (save_undo_state now clr c) \<le> MAX_UNDO"
  by (simp add: undo_count_def undo_stack_save length_slice_last)

lemma undo_stack_save_all:
  "length (undo_stack c) \<le> MAX_UNDO \<Longrightarrow>
   undo_stack (save_all xs c) = slice_last MAX_UNDO (undo_stack c @ map snapshot_of xs)"
proof (induction xs arbitrary: c)
  case Nil
  then show ?case by (simp add: slice_last_all)
next
  case (Cons e xs)
  obtain img now clr where e: "e = (img, now, clr)" by (cases e) auto
  let ?c' = "save_undo_state now clr (c\<lparr>content := img\<rparr>)"
  have len: "length (undo_stack ?c') \<le> MAX_UNDO"
    by (simp add: undo_stack_save length_slice_last)
  have "undo_stack (save_all (e # xs) c) = undo_stack (save_all xs ?c')"
    by (simp add: e)
  also have "\<dots> = slice_last MAX_UNDO (undo_stack ?c' @ map snapshot_of xs)"
    by (rule Cons.IH [OF len])
  also have "\<dots> = slice_last MAX_UNDO ((undo_stack c @ [snapshot_of e]) @ map snapshot_of xs)"
    by (simp add: undo_stack_save slice_last_append_slice snapshot_of_def e)
  finally show ?case by simp
qed

lemma undo_stack_save_all_cons:
  "undo_stack (save_all (e # xs) c) =
     slice_last MAX_UNDO (undo_stack c @ map snapshot_of (e # xs))"
proof -
  obtain img now clr where e: "e = (img, now, clr)" by (cases e) auto
  let ?c' = "save_undo_state now clr (c\<lparr>content := img\<rparr>)"
  have len: "length (undo_stack ?c') \<le> MAX_UNDO"
    by (simp add: undo_stack_save length_slice_last)
  have "undo_stack (save_all (e # xs) c) = undo_stack (save_all xs ?c')"
    by (simp add: e)
  also have "\<dots> = slice_last MAX_UNDO (undo_stack ?c' @ map snapshot_of xs)"
    by (rule undo_stack_save_all [OF len])
  also have "\<dots> = slice_last MAX_UNDO ((undo_stack c @ [snapshot_of e]) @ map snapshot_of xs)"
    by (simp add: undo_stack_save slice_last_append_slice snapshot_of_def e)
  finally show ?thesis by simp
qed

lemma undo_stack_save_all_init:
  "undo_stack (save_all xs (init_canvas img0)) = slice_last MAX_UNDO (map snapshot_of xs)"
  using undo_stack_save_all [of "init_canvas img0" xs] by (simp add: init_canvas_def)

lemma redo_stack_save_all_clear:
  "redo_stack c = [] \<Longrightarrow> \<forall>e \<in> set xs. snd (snd e) \<Longrightarrow> redo_stack (save_all xs c) = []"
proof (induction xs arbitrary: c)
  case Nil
  then show ?case by simp
next
  case (Cons e xs)
  obtain img now clr where e: "e = (img, now, clr)" by (cases e) auto
  from Cons.prems(2) have clr: "clr" and rest: "\<forall>e \<in> set xs. snd (snd e)"
    by (simp_all add: e)
  have "redo_stack (save_undo_state now clr (c\<lparr>content := img\<rparr>)) = []"
    using clr by (simp add: redo_stack_save)
  then show ?case using Cons.IH rest by (simp add: e)
qed

text \<open>
  \<^bold>\<open>C2.\<close> Whatever the canvas held before, a save leaves at most \<open>MAX_UNDO\<close> entries on
  the undo stack, and after one or more saves the stack holds exactly the most recent
  \<open>MAX_UNDO\<close> of the entries it had and the snapshots pushed since, in push order: the
  oldest are the ones dropped. For a run of saves on a fresh canvas, however long, the undo
  count is the smaller of the number of saves and \<open>MAX_UNDO\<close>, and the stack is the
  snapshots of the last \<open>MAX_UNDO\<close> saves.
\<close>

theorem undo_stack_bounded_newest_kept:
  "undo_count (save_undo_state now clr c) \<le> MAX_UNDO \<and>
   undo_count (save_all (e # xs) c) \<le> MAX_UNDO \<and>
   undo_stack (save_all (e # xs) c) =
     drop (length (undo_stack c) + length (e # xs) - MAX_UNDO)
       (undo_stack c @ map snapshot_of (e # xs)) \<and>
   undo_count (save_all xs (init_canvas img0)) \<le> MAX_UNDO \<and>
   undo_count (save_all xs (init_canvas img0)) = min (length xs) MAX_UNDO \<and>
   undo_stack (save_all xs (init_canvas img0)) =
     drop (length xs - MAX_UNDO) (map snapshot_of xs)"
proof -
  have one: "undo_count (save_undo_state now clr c) \<le> MAX_UNDO"
    by (rule undo_count_save_le)
  have run: "undo_stack (save_all (e # xs) c) =
      slice_last MAX_UNDO (undo_stack c @ map snapshot_of (e # xs))"
    by (rule undo_stack_save_all_cons)
  have fresh: "undo_stack (save_all xs (init_canvas img0)) =
      slice_last MAX_UNDO (map snapshot_of xs)"
    by (rule undo_stack_save_all_init)
  have run_le: "undo_count (save_all (e # xs) c) \<le> MAX_UNDO"
    by (simp only: undo_count_def run length_slice_last min.cobounded1)
  have run_eq: "undo_stack (save_all (e # xs) c) =
      drop (length (undo_stack c) + length (e # xs) - MAX_UNDO)
        (undo_stack c @ map snapshot_of (e # xs))"
    by (simp add: run slice_last_def)
  have fresh_len: "undo_count (save_all xs (init_canvas img0)) = min (length xs) MAX_UNDO"
    by (simp add: undo_count_def fresh length_slice_last min.commute)
  have fresh_eq: "undo_stack (save_all xs (init_canvas img0)) =
      drop (length xs - MAX_UNDO) (map snapshot_of xs)"
    by (simp add: fresh slice_last_def)
  from one run_le run_eq fresh_len fresh_eq show ?thesis by simp
qed

text \<open>
  \<^bold>\<open>C7.\<close> A save with \<open>clear_redo_stack=True\<close> leaves the redo stack empty whatever it
  held before, and so do \<open>start_stroke\<close>, \<open>fill\<close> and \<open>clear\<close>, which save with that default.
\<close>

theorem save_clears_redo_stack:
  "redo_stack (save_undo_state now True c) = [] \<and>
   redo_stack (start_stroke now c) = [] \<and>
   redo_stack (fill unused_color now c) = [] \<and>
   redo_stack (clear now c) = []"
  by (simp add: start_stroke_def fill_def clear_def redo_stack_save)

section \<open>Undo and redo\<close>

lemma undo_nonempty:
  "undo_stack c \<noteq> [] \<Longrightarrow>
   undo scaled now c =
     Inr (c\<lparr>redo_stack := redo_stack c @ [UndoState (content c) now],
            undo_stack := butlast (undo_stack c),
            content := (if image_size (image (last (undo_stack c))) \<noteq> image_size (content c)
                        then scaled (image_size (content c)) (image (last (undo_stack c)))
                        else image (last (undo_stack c)))\<rparr>)"
  by (simp add: undo_def bind_def pop_def Let_def get_qimage_def canvas_size_def)

lemma undo_never_raises: "\<exists>c'. undo scaled now c = Inr c'"
proof (cases "undo_stack c = []")
  case True
  then show ?thesis by (simp add: undo_def)
next
  case False
  then show ?thesis by (simp add: undo_nonempty)
qed

lemma redo_nonempty: "redo_stack c \<noteq> [] \<Longrightarrow> redo scaled now c = Inl AttributeError"
  by (simp add: redo_def bind_def pop_def Let_def redo_stack_save)

text \<open>
  \<^bold>\<open>C6.\<close> \<open>undo\<close> on an empty undo stack and \<open>redo\<close> on an empty redo stack return
  normally and leave the whole canvas state (content and both stacks) as it was.
\<close>

theorem undo_redo_empty_noop:
  "(undo_stack c = [] \<longrightarrow> undo scaled now c = Inr c) \<and>
   (redo_stack c = [] \<longrightarrow> redo scaled now c = Inr c)"
  by (simp add: undo_def redo_def)

theorem undo_redo_empty_noop_witness:
  "undo_stack (init_canvas (QImage 2 2 (\<lambda>x y. (255, 0, 0, 255)))) = [] \<and>
   undo (\<lambda>sz img. img) 5 (init_canvas (QImage 2 2 (\<lambda>x y. (255, 0, 0, 255))))
     = Inr (init_canvas (QImage 2 2 (\<lambda>x y. (255, 0, 0, 255)))) \<and>
   redo_stack (init_canvas (QImage 2 2 (\<lambda>x y. (255, 0, 0, 255)))) = [] \<and>
   redo (\<lambda>sz img. img) 5 (init_canvas (QImage 2 2 (\<lambda>x y. (255, 0, 0, 255))))
     = Inr (init_canvas (QImage 2 2 (\<lambda>x y. (255, 0, 0, 255))))"
  using undo_redo_empty_noop [of "init_canvas (QImage 2 2 (\<lambda>x y. (255, 0, 0, 255)))"
      "\<lambda>sz img. img" 5]
  by (simp add: init_canvas_def)

text \<open>
  \<^bold>\<open>C1.\<close> The specification has \<open>undo()\<close> followed at once by \<open>redo()\<close> restore the content
  held before the undo. In the code, whenever the undo stack is non-empty (its last entry
  is \<open>s\<close>), \<open>undo()\<close> returns and the \<open>redo()\<close> that follows raises \<open>AttributeError\<close>: it
  calls \<open>size()\<close> on the popped \<open>UndoState\<close> instead of on its image, so nothing is restored.
\<close>

theorem redo_after_undo_raises:
  "bind (undo scaled t1 (c\<lparr>undo_stack := us @ [s]\<rparr>)) (redo scaled t2) = Inl AttributeError"
  by (simp add: undo_nonempty bind_def redo_nonempty)

text \<open>
  \<^bold>\<open>C3.\<close> The specification has \<open>redo_count\<close> return the depth of the redo stack. After 35
  saves on a fresh canvas and one \<open>undo()\<close>, the undo stack holds 29 entries and the redo
  stack holds 1, but \<open>redo_count\<close> returns 29: it reads the undo stack.
\<close>

theorem redo_count_reads_undo_stack:
  "map_sum id (\<lambda>c. (undo_count c, length (redo_stack c), redo_count c))
     (undo scaled t (save_all (replicate 35 (img0, now, True)) (init_canvas img0)))
   = Inr (29, 1, 29)"
proof -
  let ?c = "save_all (replicate 35 (img0, now, True)) (init_canvas img0)"
  have len: "length (undo_stack ?c) = 30"
    by (simp add: undo_stack_save_all_init length_slice_last MAX_UNDO_def)
  then have ne: "undo_stack ?c \<noteq> []" by auto
  have rs: "redo_stack ?c = []"
    by (rule redo_stack_save_all_clear) (simp_all add: init_canvas_def)
  show ?thesis
    by (simp add: undo_nonempty [OF ne] undo_count_def redo_count_def len rs)
qed

text \<open>
  \<^bold>\<open>C5.\<close> The specification has no history operation raise. In the code, after a single
  save on a fresh canvas \<open>last_redo_timestamp\<close> raises \<open>IndexError\<close> (\<open>redo_count\<close> reports
  the undo stack's depth, so the empty redo stack is indexed), and \<open>redo\<close> raises
  \<open>AttributeError\<close> on every canvas whose redo stack is not empty.
\<close>

theorem last_redo_timestamp_raises:
  "last_redo_timestamp (save_undo_state now True (init_canvas img0)) = Inl IndexError \<and>
   redo scaled t (c\<lparr>redo_stack := rs @ [s]\<rparr>) = Inl AttributeError"
  by (simp add: last_redo_timestamp_def redo_count_def undo_stack_save redo_stack_save
      init_canvas_def slice_last_def MAX_UNDO_def bind_def index_last_def redo_nonempty)

section \<open>Reading a pixel\<close>

lemma contains_image_rect:
  "contains (image_rect img) p \<longleftrightarrow>
     0 \<le> point_x p \<and> point_x p < int (img_width img) \<and>
     0 \<le> point_y p \<and> point_y p < int (img_height img)"
  by (auto simp: contains_def image_rect_def Let_def)

text \<open>
  \<^bold>\<open>C10.\<close> For a point outside the bounds of the canvas image \<open>get_color_at_point\<close>
  returns the fully transparent \<open>QColor(0, 0, 0, 0)\<close>; for a point inside it returns the
  colour of the image's pixel at that point. It never passes an out-of-range point to
  \<open>pixelColor\<close>.
\<close>

theorem get_color_at_point_correct:
  "get_color_at_point c p =
     (if 0 \<le> point_x p \<and> point_x p < int (img_width (content c)) \<and>
         0 \<le> point_y p \<and> point_y p < int (img_height (content c))
      then (case img_pixel (content c) (point_x p) (point_y p) of
              (r, g, b, a) \<Rightarrow> QColor r g b a)
      else QColor 0 0 0 0)"
  by (auto simp: get_color_at_point_def contains_image_rect pixelColor_def get_qimage_def)

section \<open>Scaled placement\<close>

lemma truediv_max: "truediv a (max b 1) = Inr (of_int a / of_int (max b 1))"
  by (simp add: truediv_def max_def)

lemma get_scaled_placement_unfold:
  "get_scaled_placement (QRect cx cy cw ch) (QSize w h) m =
     (let s = spec_scale (QRect cx cy cw ch) (QSize w h) m;
          x = (if of_int w * s < of_int (cw - m * 2)
               then of_int (cx + m) + (of_int (cw - m * 2) - of_int w * s) / 2
               else of_int (cx + m));
          y = (if of_int h * s < of_int (ch - m * 2)
               then of_int (cy + m) + (of_int (ch - m * 2) - of_int h * s) / 2
               else of_int (cy + m))
      in Inr (QRect (py_int x) (py_int y) (py_int (of_int w * s)) (py_int (of_int h * s))))"
  by (simp add: get_scaled_placement_def truediv_max bind_def Let_def spec_scale_def mult.commute)


lemma scale_nonneg:
  assumes "m * 2 \<le> cw" "m * 2 \<le> ch"
  shows "0 \<le> spec_scale (QRect cx cy cw ch) (QSize w h) m"
  using assms by (simp add: spec_scale_def)

lemma scaled_le:
  fixes a b :: int and s :: rat
  assumes "0 \<le> s \<or> 1 \<le> b" "s \<le> of_int a / of_int (max b 1)" "0 \<le> a \<or> 1 \<le> b"
  shows "of_int b * s \<le> of_int a"
proof (cases "1 \<le> b")
  case True
  then have b: "max b 1 = b" "0 < (of_int b :: rat)" by simp_all
  from assms(2) have "s \<le> of_int a / of_int b" by (simp only: b(1))
  then show ?thesis using b(2) by (simp add: pos_le_divide_eq mult.commute)
next
  case False
  then have "(of_int b :: rat) \<le> 0" and s: "0 \<le> s" and a: "0 \<le> a"
    using assms(1,3) by simp_all
  then have "of_int b * s \<le> 0" by (simp add: mult_nonpos_nonneg)
  also have "\<dots> \<le> of_int a" using a by simp
  finally show ?thesis .
qed

lemma width_le:
  assumes "(m * 2 \<le> cw \<and> m * 2 \<le> ch) \<or> (1 \<le> w \<and> 1 \<le> h)"
  shows "of_int w * spec_scale (QRect cx cy cw ch) (QSize w h) m \<le> of_int (cw - m * 2)"
proof (rule scaled_le)
  show "0 \<le> spec_scale (QRect cx cy cw ch) (QSize w h) m \<or> 1 \<le> w"
    using assms scale_nonneg [of m cw ch cx cy w h] by auto
  show "spec_scale (QRect cx cy cw ch) (QSize w h) m \<le> of_int (cw - m * 2) / of_int (max w 1)"
    by (simp add: spec_scale_def mult.commute)
  show "0 \<le> cw - m * 2 \<or> 1 \<le> w" using assms by auto
qed

lemma height_le:
  assumes "(m * 2 \<le> cw \<and> m * 2 \<le> ch) \<or> (1 \<le> w \<and> 1 \<le> h)"
  shows "of_int h * spec_scale (QRect cx cy cw ch) (QSize w h) m \<le> of_int (ch - m * 2)"
proof (rule scaled_le)
  show "0 \<le> spec_scale (QRect cx cy cw ch) (QSize w h) m \<or> 1 \<le> h"
    using assms scale_nonneg [of m cw ch cx cy w h] by auto
  show "spec_scale (QRect cx cy cw ch) (QSize w h) m \<le> of_int (ch - m * 2) / of_int (max h 1)"
    by (simp add: spec_scale_def mult.commute)
  show "0 \<le> ch - m * 2 \<or> 1 \<le> h" using assms by auto
qed



lemma py_int_lower:
  assumes "of_int k \<le> q"
  shows "k \<le> py_int q"
proof (cases "0 \<le> q")
  case True
  then show ?thesis using assms by (simp add: py_int_def le_floor_iff)
next
  case False
  have "(of_int k :: rat) \<le> of_int \<lceil>q\<rceil>"
    using assms le_of_int_ceiling [of q] by (rule order_trans)
  then have "k \<le> \<lceil>q\<rceil>" by (simp only: of_int_le_iff)
  then show ?thesis using False by (simp add: py_int_def)
qed

lemma py_int_le_ceiling: "py_int q \<le> \<lceil>q\<rceil>"
  by (simp add: py_int_def floor_le_ceiling)

lemma py_int_nonneg: "0 \<le> q \<Longrightarrow> py_int q = \<lfloor>q\<rfloor>"
  by (simp add: py_int_def)

text \<open>
  A centred offset, truncated, plus a truncated extent stays within the available length.
\<close>

lemma centred_fits:
  fixes e :: rat and n L :: int
  assumes "0 \<le> e" "e \<le> of_int n"
  shows "py_int (of_int L + (of_int n - e) / 2) + py_int e \<le> L + n"
proof -
  define d where "d = of_int n - e"
  have d: "0 \<le> d" "e = of_int n - d" using assms by (simp_all add: d_def)
  have "py_int (of_int L + d / 2) \<le> \<lceil>of_int L + d / 2\<rceil>" by (rule py_int_le_ceiling)
  also have "\<dots> = L + \<lceil>d / 2\<rceil>"
    using ceiling_add_of_int [of "d / 2" L] by (simp add: add.commute)
  also have "\<dots> \<le> L + \<lceil>d\<rceil>" using d(1) by (simp add: ceiling_mono)
  finally have 1: "py_int (of_int L + d / 2) \<le> L + \<lceil>d\<rceil>" .
  have "py_int e = \<lfloor>of_int n - d\<rfloor>" using assms(1) d(2) by (simp add: py_int_nonneg)
  also have "\<dots> = \<lfloor>- d + of_int n\<rfloor>" by (simp add: add.commute)
  also have "\<dots> = \<lfloor>- d\<rfloor> + n" by (rule floor_add_int [symmetric])
  also have "\<dots> = n - \<lceil>d\<rceil>" by (simp add: ceiling_def)
  finally have 2: "py_int e = n - \<lceil>d\<rceil>" .
  show ?thesis using 1 2 by (simp add: d_def)
qed

lemma within_1d:
  fixes e :: rat and c m len :: int
  assumes e0: "0 \<le> e" and e1: "e \<le> of_int (len - m * 2)" and m: "0 \<le> m"
  shows "0 \<le> py_int e \<and>
         c \<le> py_int (if e < of_int (len - m * 2)
                       then of_int (c + m) + (of_int (len - m * 2) - e) / 2
                       else of_int (c + m)) \<and>
         py_int (if e < of_int (len - m * 2)
                 then of_int (c + m) + (of_int (len - m * 2) - e) / 2
                 else of_int (c + m)) + py_int e \<le> c + len"
proof -
  define p where "p = of_int (c + m) + (of_int (len - m * 2) - e) / 2"
  have p: "(if e < of_int (len - m * 2)
            then of_int (c + m) + (of_int (len - m * 2) - e) / 2
            else of_int (c + m)) = p"
  proof (cases "e < of_int (len - m * 2)")
    case True
    then show ?thesis by (simp only: p_def if_True)
  next
    case False
    with e1 have "e = of_int (len - m * 2)" by simp
    then show ?thesis by (simp add: p_def)
  qed
  have "(of_int c :: rat) \<le> of_int (c + m)" using m by simp
  also have "\<dots> \<le> p" using e1 by (simp add: p_def)
  finally have lo: "c \<le> py_int p" by (rule py_int_lower)
  have "py_int p + py_int e \<le> (c + m) + (len - m * 2)"
    unfolding p_def by (rule centred_fits [OF e0 e1])
  then have hi: "py_int p + py_int e \<le> c + len" using m by simp
  have "0 \<le> py_int e" using e0 by (simp add: py_int_nonneg)
  with lo hi show ?thesis by (simp only: p simp_thms)
qed

lemma placement_within:
  assumes m: "0 \<le> m" and cw: "2 * m \<le> cw" and ch: "2 * m \<le> ch"
    and w: "0 \<le> w" and h: "0 \<le> h"
  shows "\<exists>r. get_scaled_placement (QRect cx cy cw ch) (QSize w h) m = Inr r \<and>
             rect_within r (QRect cx cy cw ch)"
proof -
  have a: "(m * 2 \<le> cw \<and> m * 2 \<le> ch) \<or> (1 \<le> w \<and> 1 \<le> h)"
    using cw ch by simp
  define s where "s = spec_scale (QRect cx cy cw ch) (QSize w h) m"
  define x where "x = (if of_int w * s < of_int (cw - m * 2)
               then of_int (cx + m) + (of_int (cw - m * 2) - of_int w * s) / 2
               else of_int (cx + m))"
  define y where "y = (if of_int h * s < of_int (ch - m * 2)
               then of_int (cy + m) + (of_int (ch - m * 2) - of_int h * s) / 2
               else of_int (cy + m))"
  have s: "0 \<le> s" unfolding s_def using cw ch by (intro scale_nonneg) simp_all
  have ws: "0 \<le> of_int w * s" using w s by simp
  have hs: "0 \<le> of_int h * s" using h s by simp
  have wl: "of_int w * s \<le> of_int (cw - m * 2)" unfolding s_def by (rule width_le [OF a])
  have hl: "of_int h * s \<le> of_int (ch - m * 2)" unfolding s_def by (rule height_le [OF a])
  have X: "0 \<le> py_int (of_int w * s) \<and> cx \<le> py_int x \<and>
           py_int x + py_int (of_int w * s) \<le> cx + cw"
    unfolding x_def by (rule within_1d [OF ws wl m])
  have Y: "0 \<le> py_int (of_int h * s) \<and> cy \<le> py_int y \<and>
           py_int y + py_int (of_int h * s) \<le> cy + ch"
    unfolding y_def by (rule within_1d [OF hs hl m])
  have eq: "get_scaled_placement (QRect cx cy cw ch) (QSize w h) m =
      Inr (QRect (py_int x) (py_int y) (py_int (of_int w * s)) (py_int (of_int h * s)))"
    unfolding get_scaled_placement_unfold Let_def s_def x_def y_def by (rule refl)
  have "rect_within (QRect (py_int x) (py_int y) (py_int (of_int w * s)) (py_int (of_int h * s)))
          (QRect cx cy cw ch)"
    using X Y by (simp add: rect_within_def)
  with eq show ?thesis by blast
qed

text \<open>
  The border that \<open>resizeEvent\<close> passes as margin fits any widget at least two pixels wide and
  high, so the content rectangle it stores lies within the widget.
\<close>

lemma border_size_fits:
  assumes "2 \<le> ww" "2 \<le> wh"
  shows "0 \<le> border_size (QSize ww wh) \<and> 2 * border_size (QSize ww wh) \<le> ww \<and>
         2 * border_size (QSize ww wh) \<le> wh"
  using assms by (auto simp: border_size_def min_def)

lemma resize_content_rect_within:
  assumes "2 \<le> ww" "2 \<le> wh" "0 \<le> w" "0 \<le> h"
  shows "\<exists>r. resize_content_rect (QSize ww wh) (QSize w h) = Inr r \<and>
             rect_within r (QRect 0 0 ww wh)"
  using border_size_fits [OF assms(1,2)] assms(3,4)
  by (simp add: resize_content_rect_def placement_within)





end
